theory Spec2Isabelle
  imports Main
begin

section \<open>Resolved types (go/types) as the classifier sees them\<close>

text \<open>
  The analyzer of \<^verbatim>\<open>src/tsgo.go\<close> receives its types from the Go type checker. A
  \<^verbatim>\<open>types.Type\<close> is an interface value holding one of the shapes below, or \<^verbatim>\<open>nil\<close>;
  a possibly-nil type is a \<open>ty option\<close> with \<open>None\<close> for \<^verbatim>\<open>nil\<close>.

  The classifier only ever follows \<^verbatim>\<open>Named.Underlying()\<close> and \<^verbatim>\<open>Struct.Field(i).Type()\<close>;
  the type checker rejects a type that is cyclic along these two edges alone, so the types
  are finite trees along them. The element types below \<open>Array\<close>, \<open>Chan\<close>, \<open>Map\<close>,
  \<open>Pointer\<close>, \<open>Slice\<close>, \<open>Signature\<close> and \<open>Tuple\<close> are carried for completeness and never
  inspected; a type that refers to itself below one of them, as
  \<^verbatim>\<open>type T struct{ next *T }\<close> does, is written with that reference unfolded to any
  finite depth. The kind \<^verbatim>\<open>types.Int\<close> is written \<open>Int0\<close>.
\<close>

datatype BasicKind =
    Invalid
  | Bool | Int0 | Int8 | Int16 | Int32 | Int64
  | Uint | Uint8 | Uint16 | Uint32 | Uint64 | Uintptr
  | Float32 | Float64 | Complex64 | Complex128
  | String | UnsafePointer
  | UntypedBool | UntypedInt | UntypedRune | UntypedFloat | UntypedComplex
  | UntypedString | UntypedNil

datatype ChanDir = SendRecv | SendOnly | RecvOnly

datatype ty =
    Array int ty
  | Basic BasicKind
  | Chan ChanDir ty
  | Interface "string list"
  | Map ty ty
  | Named string ty
  | Pointer ty
  | Slice ty
  | Struct "(string \<times> ty) list"
  | Signature "ty list" "ty list"
  | Tuple "ty list"

section \<open>The type classifier\<close>

text \<open>
  \<^verbatim>\<open>func typeContainsPointer(t types.Type) (bool, types.Type)\<close>, lines 16 to 51.

  The type switch has no \<^verbatim>\<open>default\<close> arm and Go's \<^verbatim>\<open>switch\<close> never falls through into
  the next \<^verbatim>\<open>case\<close>: a case body that ends without returning leaves the switch and reaches
  the final \<^verbatim>\<open>return true, t\<close> of line 50, where \<open>t\<close> is the function's parameter. That
  is the path of every shape the switch does not list (\<open>Signature\<close>, \<open>Tuple\<close>, a
  \<^verbatim>\<open>nil\<close> type) and also of the \<^verbatim>\<open>*types.Basic\<close> case when the condition of its
  \<^verbatim>\<open>if\<close> is false, since that \<^verbatim>\<open>if\<close> has no \<^verbatim>\<open>else\<close>.

  \<open>structFields\<close> is the loop of lines 38 to 43 over the fields \<open>0 .. NumFields() - 1\<close> in
  index order, followed by the \<^verbatim>\<open>return false, nil\<close> of line 44.
\<close>

fun typeContainsPointer :: "ty option \<Rightarrow> bool \<times> ty option"
  and structFields :: "(string \<times> ty) list \<Rightarrow> bool \<times> ty option"
where
  "typeContainsPointer (Some (Array n e)) = (True, Some (Array n e))"
| "typeContainsPointer (Some (Basic k)) =
     (if k \<noteq> UnsafePointer then (True, Some (Basic k))
      else (True, Some (Basic k)))"
| "typeContainsPointer (Some (Chan d e)) = (False, None)"
| "typeContainsPointer (Some (Interface ms)) = (False, None)"
| "typeContainsPointer (Some (Map k e)) = (True, Some (Map k e))"
| "typeContainsPointer (Some (Named n u)) = typeContainsPointer (Some u)"
| "typeContainsPointer (Some (Pointer e)) = (True, Some (Pointer e))"
| "typeContainsPointer (Some (Slice e)) = (True, Some (Slice e))"
| "typeContainsPointer (Some (Struct fields)) = structFields fields"
| "typeContainsPointer (Some (Signature ps rs)) = (True, Some (Signature ps rs))"
| "typeContainsPointer (Some (Tuple ts)) = (True, Some (Tuple ts))"
| "typeContainsPointer None = (True, None)"
| "structFields [] = (False, None)"
| "structFields (field # rest) =
     (let (contains, subType) = typeContainsPointer (Some (snd field))
      in if contains then (True, subType) else structFields rest)"

section \<open>Syntax trees (go/ast)\<close>

text \<open>
  The node kinds that \<^verbatim>\<open>visitor.Visit\<close> distinguishes, with the fields it reads, and one
  constructor \<open>Other\<close> for every other kind (its kind name, its position and its non-nil
  children in the order in which \<^verbatim>\<open>ast.Walk\<close> visits them: a function literal is
  \<open>Other ''FuncLit'' p [type, body]\<close>).
  \<^item> \<open>SendStmt Chan Arrow Value\<close>;
  \<^item> \<open>GoStmt Go Fun Args\<close>: the statement's \<^verbatim>\<open>Call\<close> is a \<^verbatim>\<open>*ast.CallExpr\<close>, kept by its
    fields \<^verbatim>\<open>Call.Fun\<close> and \<^verbatim>\<open>Call.Args\<close>; \<open>CallExpr Fun Args\<close> is that call as a node;
  \<^item> \<open>GenDecl TokPos Tok Specs\<close>; the driver parses with mode \<open>0\<close>, so no comment is
    parsed and every \<^verbatim>\<open>Doc\<close> and \<^verbatim>\<open>Comment\<close> field is nil;
  \<^item> \<open>ValueSpec Names Type Values\<close>, the spec of a \<^verbatim>\<open>var\<close> or \<^verbatim>\<open>const\<close> declaration:
    \<^verbatim>\<open>var a, b int\<close> is one spec with two names (\<open>Type\<close> is empty or one node);
  \<^item> \<open>FuncDecl children\<close>: the non-nil ones of \<^verbatim>\<open>Recv\<close>, \<^verbatim>\<open>Name\<close>, \<^verbatim>\<open>Type\<close>, \<^verbatim>\<open>Body\<close>,
    in that order;
  \<^item> \<open>Ident NamePos Name\<close>.
\<close>

datatype Token = IMPORT | CONST | TYPE | VAR

datatype node =
    SendStmt node int node
  | GoStmt int node "node list"
  | CallExpr node "node list"
  | GenDecl int Token "node list"
  | ValueSpec "node list" "node list" "node list"
  | FuncDecl "node list"
  | Ident int string
  | Other string int "node list"

section \<open>What the program takes from its libraries\<close>

text \<open>
  The two panics the analysis can raise: \<^verbatim>\<open>panic(err)\<close> in \<^verbatim>\<open>stringifyNode\<close> when the
  printer returns an error, and the run-time panic of reading through a visitor pointer
  that points at no visitor.
\<close>

datatype error = PrinterError | NilDereference

text \<open>
  The services reached through the \<^verbatim>\<open>*token.FileSet\<close>, taken as parameters:
  \<open>Position fs n\<close> is the text of \<^verbatim>\<open>fset.Position(n.Pos())\<close> and \<open>Fprint fs n\<close> is what
  \<^verbatim>\<open>printer.Fprint(&buffer, fset, n)\<close> leaves in the buffer, or its error.
  \<open>TypeOf\<close> is \<^verbatim>\<open>types.Info.TypeOf\<close>, which returns nil for an expression it has no
  type for.
\<close>

record FileSet =
  Position :: "node \<Rightarrow> string"
  Fprint :: "node \<Rightarrow> error + string"

record Info =
  TypeOf :: "node \<Rightarrow> ty option"

section \<open>The diagnostic reporter\<close>

text \<open>
  Standard output is the sequence of the \<^verbatim>\<open>fmt.Printf\<close> calls made so far. The only call
  of the program is the one of \<^verbatim>\<open>printError\<close>, with the format
  \<^verbatim>\<open>"%s:warning: %s (%v)\n"\<close>; a call is kept by its three arguments. The third one
  is the \<^verbatim>\<open>interface{}\<close> variable \<^verbatim>\<open>annotation\<close>, which holds a type or a string.
  \<open>Printf typeString d\<close> is the text the call writes, \<open>typeString\<close> being the
  \<^verbatim>\<open>String()\<close> method of go/types that \<^verbatim>\<open>%v\<close> calls.
\<close>

datatype annotation = OfType ty | OfText string

record diagnostic =
  position :: string
  message :: string
  annotation :: annotation

definition showAnnotation :: "(ty \<Rightarrow> string) \<Rightarrow> annotation \<Rightarrow> string" where
  "showAnnotation typeString a = (case a of OfType t \<Rightarrow> typeString t | OfText s \<Rightarrow> s)"

definition Printf :: "(ty \<Rightarrow> string) \<Rightarrow> diagnostic \<Rightarrow> string" where
  "Printf typeString d =
     position d @ '':warning: '' @ message d @ '' ('' @
     showAnnotation typeString (annotation d) @ '')'' @ [CHR 0x0A]"

text \<open>
  The mutable state: standard output, and the heap of \<^verbatim>\<open>visitor\<close> structs. A
  \<^verbatim>\<open>*visitor\<close> is an index into the heap; \<^verbatim>\<open>&newVisitor\<close> allocates at the end.
\<close>

record visitor =
  fset :: FileSet
  info :: Info
  isInsideFunction :: bool

type_synonym addr = nat

record world =
  stdout :: "diagnostic list"
  heap :: "visitor list"

type_synonym 'a outcome = "(error + 'a) \<times> world"

text \<open>Sequencing: a panic stops the run and keeps the world as it was when raised.\<close>

definition andThen :: "'a outcome \<Rightarrow> ('a \<Rightarrow> world \<Rightarrow> 'b outcome) \<Rightarrow> 'b outcome" where
  "andThen r k = (case r of (Inl e, w) \<Rightarrow> (Inl e, w) | (Inr x, w) \<Rightarrow> k x w)"

lemma andThen_cong [fundef_cong]:
  "r = r' \<Longrightarrow> (\<And>x w. r' = (Inr x, w) \<Longrightarrow> k x w = k' x w) \<Longrightarrow> andThen r k = andThen r' k'"
  by (auto simp: andThen_def split: prod.splits sum.splits)

text \<open>\<^verbatim>\<open>func stringifyNode(fset, node) string\<close>, lines 53 to 60.\<close>

definition stringifyNode :: "FileSet \<Rightarrow> node \<Rightarrow> error + string" where
  "stringifyNode fs n = (case Fprint fs n of Inl err \<Rightarrow> Inl err | Inr buffer \<Rightarrow> Inr buffer)"

text \<open>\<^verbatim>\<open>func printError(fset, node, message, t)\<close>, lines 62 to 70.\<close>

definition printError :: "FileSet \<Rightarrow> node \<Rightarrow> string \<Rightarrow> ty option \<Rightarrow> world \<Rightarrow> unit outcome" where
  "printError fs n msg t w =
     (case (case t of Some t' \<Rightarrow> Inr (OfType t')
                    | None \<Rightarrow> map_sum id OfText (stringifyNode fs n)) of
        Inl err \<Rightarrow> (Inl err, w)
      | Inr a \<Rightarrow>
          (Inr (),
           w\<lparr>stdout := stdout w @ [\<lparr>position = Position fs n, message = msg, annotation = a\<rparr>]\<rparr>))"

section \<open>The visitor\<close>

definition deref :: "world \<Rightarrow> addr \<Rightarrow> visitor outcome" where
  "deref w v = (if v < length (heap w) then (Inr (heap w ! v), w) else (Inl NilDereference, w))"

text \<open>The loop of lines 90 to 95 over \<^verbatim>\<open>n.Call.Args\<close>.\<close>

fun goArgs :: "visitor \<Rightarrow> node list \<Rightarrow> world \<Rightarrow> unit outcome" where
  "goArgs vis [] w = (Inr (), w)"
| "goArgs vis (arg # args) w =
     (let (contains, pointerType) = typeContainsPointer (TypeOf (info vis) arg)
      in if contains
         then andThen (printError (fset vis) arg ''calling goroutine with a pointer type'' pointerType w)
                (\<lambda>_. goArgs vis args)
         else goArgs vis args w)"

text \<open>The loop of lines 98 to 100 over \<^verbatim>\<open>n.Specs\<close>.\<close>

fun varSpecs :: "visitor \<Rightarrow> node list \<Rightarrow> world \<Rightarrow> unit outcome" where
  "varSpecs vis [] w = (Inr (), w)"
| "varSpecs vis (spec # specs) w =
     andThen (printError (fset vis) spec ''global var declared'' None w)
       (\<lambda>_. varSpecs vis specs)"

text \<open>
  \<^verbatim>\<open>func (v *visitor) Visit(n ast.Node) ast.Visitor\<close>, lines 78 to 116. The node is
  \<open>None\<close> for the call \<^verbatim>\<open>Visit(nil)\<close> that \<^verbatim>\<open>ast.Walk\<close> makes after the children. The
  result is the visitor for the children: \<open>v\<close> itself, or for a \<open>FuncDecl\<close> the address of
  a new struct, the copy \<^verbatim>\<open>newVisitor := *v\<close> with \<^verbatim>\<open>isInsideFunction\<close> set.
\<close>

fun Visit :: "addr \<Rightarrow> node option \<Rightarrow> world \<Rightarrow> addr outcome" where
  "Visit v (Some (SendStmt ch arrow val)) w =
     andThen (deref w v) (\<lambda>vis w.
       let (contains, pointerType) = typeContainsPointer (TypeOf (info vis) val)
       in if contains
          then andThen (printError (fset vis) (SendStmt ch arrow val)
                          ''sending pointer type over a channel'' pointerType w)
                 (\<lambda>_ w. (Inr v, w))
          else (Inr v, w))"
| "Visit v (Some (GoStmt go fn args)) w =
     andThen (deref w v) (\<lambda>vis w.
       let (contains, pointerType) = typeContainsPointer (TypeOf (info vis) fn)
       in andThen (if contains
                   then printError (fset vis) (GoStmt go fn args)
                          ''calling goroutine on a pointer type'' pointerType w
                   else (Inr (), w))
            (\<lambda>_ w. andThen (goArgs vis args w) (\<lambda>_ w. (Inr v, w))))"
| "Visit v (Some (GenDecl tokPos tok specs)) w =
     andThen (deref w v) (\<lambda>vis w.
       if \<not> isInsideFunction vis \<and> tok = VAR
       then andThen (varSpecs vis specs w) (\<lambda>_ w. (Inr v, w))
       else (Inr v, w))"
| "Visit v (Some (FuncDecl children)) w =
     andThen (deref w v) (\<lambda>vis w.
       let newVisitor = vis\<lparr>isInsideFunction := True\<rparr>
       in (Inr (length (heap w)), w\<lparr>heap := heap w @ [newVisitor]\<rparr>))"
| "Visit v (Some (Ident namePos name)) w = (Inr v, w)"
| "Visit v n w = (Inr v, w)"

section \<open>The traversal (ast.Walk)\<close>

text \<open>
  \<^verbatim>\<open>ast.Walk(v, node)\<close> of the Go library, which the driver calls on each file with a
  fresh visitor: it calls \<^verbatim>\<open>v.Visit(node)\<close>, walks the non-nil children of the node in
  source order with the visitor that call returned, and ends with \<^verbatim>\<open>Visit(nil)\<close> on
  that visitor. \<open>walkChildren\<close> is its switch over the node kinds. \<open>Visit\<close> of this program
  never returns nil, so the walk never stops early.
\<close>

fun weight :: "node \<Rightarrow> nat" where
  "weight (SendStmt ch arrow val) = 1 + weight ch + weight val"
| "weight (GoStmt go fn args) = 3 + weight fn + sum_list (map weight args) + length args"
| "weight (CallExpr fn args) = 2 + weight fn + sum_list (map weight args) + length args"
| "weight (GenDecl tokPos tok specs) = 1 + sum_list (map weight specs) + length specs"
| "weight (ValueSpec names typ vals) =
     1 + sum_list (map weight names) + length names + sum_list (map weight typ) + length typ
       + sum_list (map weight vals) + length vals"
| "weight (FuncDecl children) = 1 + sum_list (map weight children) + length children"
| "weight (Ident namePos name) = 1"
| "weight (Other kind p children) = 1 + sum_list (map weight children) + length children"

function Walk :: "addr \<Rightarrow> node \<Rightarrow> world \<Rightarrow> unit outcome"
  and walkChildren :: "addr \<Rightarrow> node \<Rightarrow> world \<Rightarrow> unit outcome"
  and walkList :: "addr \<Rightarrow> node list \<Rightarrow> world \<Rightarrow> unit outcome"
where
  "Walk v n w =
     andThen (Visit v (Some n) w) (\<lambda>v' w.
       andThen (walkChildren v' n w) (\<lambda>_ w.
         andThen (Visit v' None w) (\<lambda>_ w. (Inr (), w))))"
| "walkChildren v (SendStmt ch arrow val) w = andThen (Walk v ch w) (\<lambda>_. Walk v val)"
| "walkChildren v (GoStmt go fn args) w = Walk v (CallExpr fn args) w"
| "walkChildren v (CallExpr fn args) w = andThen (Walk v fn w) (\<lambda>_. walkList v args)"
| "walkChildren v (GenDecl tokPos tok specs) w = walkList v specs w"
| "walkChildren v (ValueSpec names typ vals) w =
     andThen (walkList v names w) (\<lambda>_ w.
       andThen (walkList v typ w) (\<lambda>_. walkList v vals))"
| "walkChildren v (FuncDecl children) w = walkList v children w"
| "walkChildren v (Ident namePos name) w = (Inr (), w)"
| "walkChildren v (Other kind p children) w = walkList v children w"
| "walkList v [] w = (Inr (), w)"
| "walkList v (n # ns) w = andThen (Walk v n w) (\<lambda>_. walkList v ns)"
  by pat_completeness auto
termination
  by (relation "measure (\<lambda>x. case x of
        Inl (v, n, w) \<Rightarrow> 3 * weight n + 2
      | Inr (Inl (v, n, w)) \<Rightarrow> 3 * weight n + 1
      | Inr (Inr (v, ns, w)) \<Rightarrow> 3 * sum_list (map weight ns) + 3 * length ns)") auto

declare Walk.simps(1) [simp del]

text \<open>
  The driver's call of lines 157 to 160, \<^verbatim>\<open>ast.Walk(&visitor{fset: fset, info: info}, f.node)\<close>:
  the visitor of a file starts with \<^verbatim>\<open>isInsideFunction\<close> at its zero value, false.
\<close>

definition walkFile :: "FileSet \<Rightarrow> Info \<Rightarrow> node \<Rightarrow> world \<Rightarrow> unit outcome" where
  "walkFile fs types file w =
     Walk (length (heap w)) file
       (w\<lparr>heap := heap w @ [\<lparr>fset = fs, info = types, isInsideFunction = False\<rparr>]\<rparr>)"

section \<open>Notions used to state the properties\<close>

text \<open>
  The shapes that the type switch of \<open>typeContainsPointer\<close> lists (lines 18 to 36); every
  other shape, and the nil type, takes the fallback of line 50.
\<close>

fun listed :: "ty option \<Rightarrow> bool" where
  "listed (Some (Array n e)) = True"
| "listed (Some (Basic k)) = True"
| "listed (Some (Chan d e)) = True"
| "listed (Some (Interface ms)) = True"
| "listed (Some (Map k e)) = True"
| "listed (Some (Named n u)) = True"
| "listed (Some (Pointer e)) = True"
| "listed (Some (Slice e)) = True"
| "listed (Some (Struct flds)) = True"
| "listed t = False"

text \<open>
  \<open>emit w ds\<close> is the world after the calls \<open>ds\<close> of \<^verbatim>\<open>fmt.Printf\<close>, and
  \<open>report fs n msg a\<close> the call that \<open>printError\<close> makes for the node \<open>n\<close>.
\<close>

definition emit :: "world \<Rightarrow> diagnostic list \<Rightarrow> world" where
  "emit w ds = w\<lparr>stdout := stdout w @ ds\<rparr>"

definition report :: "FileSet \<Rightarrow> node \<Rightarrow> string \<Rightarrow> annotation \<Rightarrow> diagnostic" where
  "report fs n msg a = \<lparr>position = Position fs n, message = msg, annotation = a\<rparr>"

text \<open>
  The output line as the specification words it,
  \<^verbatim>\<open><position>: warning: <message> (<annotation>)\<close>, to be compared with \<open>Printf\<close>.
\<close>

definition specLine :: "string \<Rightarrow> string \<Rightarrow> string \<Rightarrow> string" where
  "specLine pos msg ann = pos @ '': warning: '' @ msg @ '' ('' @ ann @ '')'' @ [CHR 0x0A]"

text \<open>The names a declaration declares: the \<^verbatim>\<open>Names\<close> of its specs.\<close>

fun specNames :: "node \<Rightarrow> node list" where
  "specNames (ValueSpec names typ vals) = names"
| "specNames n = []"

definition declaredNames :: "node list \<Rightarrow> node list" where
  "declaredNames specs = concat (map specNames specs)"

text \<open>
  Frame conditions. \<open>adds P w w'\<close>: the world \<open>w'\<close> is \<open>w\<close> with visitors allocated at the
  end of the heap, none of the old ones changed, and with diagnostics appended to the
  output that all satisfy \<open>P\<close>. With \<open>strict\<close> set, \<open>inside\<close> says that the visitor at \<open>v\<close>
  is one of a function body and \<open>allowed\<close> excludes the diagnostic of a global variable;
  with \<open>strict\<close> unset both hold of everything.
\<close>

definition adds :: "(diagnostic \<Rightarrow> bool) \<Rightarrow> world \<Rightarrow> world \<Rightarrow> bool" where
  "adds P w w' \<longleftrightarrow>
     (\<exists>hs. heap w' = heap w @ hs) \<and> (\<exists>ds. stdout w' = stdout w @ ds \<and> list_all P ds)"

definition inside :: "bool \<Rightarrow> addr \<Rightarrow> world \<Rightarrow> bool" where
  "inside strict v w \<longleftrightarrow> (strict \<longrightarrow> v < length (heap w) \<and> isInsideFunction (heap w ! v))"

definition allowed :: "bool \<Rightarrow> diagnostic \<Rightarrow> bool" where
  "allowed strict d \<longleftrightarrow> (strict \<longrightarrow> message d \<noteq> ''global var declared'')"

text \<open>
  Places in a tree. \<open>children m\<close> are the nodes that \<open>walkChildren\<close> walks below \<open>m\<close>, in
  its order. \<open>withinScope d m\<close>: the node \<open>d\<close> is \<open>m\<close> or lies below \<open>m\<close> at any depth
  and any position, with no function declaration from \<open>m\<close> down to the parent of \<open>d\<close>;
  function literals and every other kind of node may lie between the two.
\<close>

fun children :: "node \<Rightarrow> node list" where
  "children (SendStmt ch arrow val) = [ch, val]"
| "children (GoStmt go fn args) = [CallExpr fn args]"
| "children (CallExpr fn args) = fn # args"
| "children (GenDecl tokPos tok specs) = specs"
| "children (ValueSpec names typ vals) = names @ typ @ vals"
| "children (FuncDecl cs) = cs"
| "children (Ident namePos name) = []"
| "children (Other kind p cs) = cs"

fun isFuncDecl :: "node \<Rightarrow> bool" where
  "isFuncDecl (FuncDecl cs) = True"
| "isFuncDecl n = False"

lemma weight_member: "c \<in> set cs \<Longrightarrow> weight c < Suc (sum_list (map weight cs) + length cs)"
  by (induction cs) auto

lemma weight_children: "c \<in> set (children m) \<Longrightarrow> weight c < weight m"
  by (cases m) (auto dest: weight_member)

function withinScope :: "node \<Rightarrow> node \<Rightarrow> bool" where
  "withinScope d m \<longleftrightarrow>
     d = m \<or> (\<not> isFuncDecl m \<and> (\<exists>c \<in> set (children m). withinScope d c))"
  by pat_completeness auto
termination
  by (relation "measure (\<lambda>(d, m). weight m)") (auto simp: weight_children)

declare withinScope.simps [simp del]

section \<open>An example file\<close>

text \<open>
  The syntax tree of this file \<^verbatim>\<open>main.go\<close> (indented with tabs), the types of the
  expressions that the visitor asks for, and the positions and printed texts of the nodes
  that it reports, with one visitor at file scope:
  \<^verbatim>\<open>
  package main

  import "unsafe"

  var a, b int

  var h = func() {
          println(a)
          var c int
          _ = c
  }

  func f(p *int, x unsafe.Pointer) {}

  func g(p *int, x unsafe.Pointer, ch chan []int, s []int) {
          var d int
          _ = d
          ch <- s
          go f(p, x)
  }
  \<close>
\<close>

definition exSpecAB :: node where
  "exSpecAB = ValueSpec [Ident 36 ''a'', Ident 39 ''b''] [Ident 41 ''int''] []"

definition exSpecC :: node where
  "exSpecC = ValueSpec [Ident 80 ''c''] [Ident 82 ''int''] []"

definition exSpecD :: node where
  "exSpecD = ValueSpec [Ident 197 ''d''] [Ident 199 ''int''] []"

definition exFuncLit :: node where
  "exFuncLit =
     Other ''FuncLit'' 54
       [Other ''FuncType'' 54 [Other ''FieldList'' 58 []],
        Other ''BlockStmt'' 61
          [Other ''ExprStmt'' 64 [CallExpr (Ident 64 ''println'') [Ident 72 ''a'']],
           Other ''DeclStmt'' 76 [GenDecl 76 VAR [exSpecC]],
           Other ''AssignStmt'' 87 [Ident 87 ''_'', Ident 91 ''c'']]]"

definition exSpecH :: node where
  "exSpecH = ValueSpec [Ident 50 ''h''] [] [exFuncLit]"

definition exSend :: node where
  "exSend = SendStmt (Ident 211 ''ch'') 214 (Ident 217 ''s'')"

definition exGo :: node where
  "exGo = GoStmt 220 (Ident 223 ''f'') [Ident 225 ''p'', Ident 228 ''x'']"

definition exFuncF :: node where
  "exFuncF =
     FuncDecl
       [Ident 101 ''f'',
        Other ''FuncType'' 96
          [Other ''FieldList'' 102
             [Other ''Field'' 103 [Ident 103 ''p'', Other ''StarExpr'' 105 [Ident 106 ''int'']],
              Other ''Field'' 111
                [Ident 111 ''x'',
                 Other ''SelectorExpr'' 113 [Ident 113 ''unsafe'', Ident 120 ''Pointer'']]]],
        Other ''BlockStmt'' 129 []]"

definition exFuncChildren :: "node list" where
  "exFuncChildren =
     [Ident 138 ''g'',
      Other ''FuncType'' 133
        [Other ''FieldList'' 139
           [Other ''Field'' 140 [Ident 140 ''p'', Other ''StarExpr'' 142 [Ident 143 ''int'']],
            Other ''Field'' 148
              [Ident 148 ''x'',
               Other ''SelectorExpr'' 150 [Ident 150 ''unsafe'', Ident 157 ''Pointer'']],
            Other ''Field'' 166
              [Ident 166 ''ch'',
               Other ''ChanType'' 169 [Other ''ArrayType'' 174 [Ident 176 ''int'']]],
            Other ''Field'' 181 [Ident 181 ''s'', Other ''ArrayType'' 183 [Ident 185 ''int'']]]],
      Other ''BlockStmt'' 190
        [Other ''DeclStmt'' 193 [GenDecl 193 VAR [exSpecD]],
         Other ''AssignStmt'' 204 [Ident 204 ''_'', Ident 208 ''d''],
         exSend, exGo]]"

definition exFuncDecl :: node where
  "exFuncDecl = FuncDecl exFuncChildren"

definition exFile :: node where
  "exFile =
     Other ''File'' 1
       [Ident 9 ''main'',
        GenDecl 15 IMPORT [Other ''ImportSpec'' 22 [Other ''BasicLit'' 22 []]],
        GenDecl 32 VAR [exSpecAB], GenDecl 46 VAR [exSpecH], exFuncF, exFuncDecl]"

definition exTypes :: "node \<Rightarrow> ty option" where
  "exTypes n =
     (if n = Ident 223 ''f'' then Some (Signature [Pointer (Basic Int0), Basic UnsafePointer] [])
      else if n = Ident 225 ''p'' then Some (Pointer (Basic Int0))
      else if n = Ident 228 ''x'' then Some (Basic UnsafePointer)
      else if n = Ident 217 ''s'' then Some (Slice (Basic Int0))
      else if n = Ident 211 ''ch'' then Some (Chan SendRecv (Slice (Basic Int0)))
      else None)"

definition exPosition :: "node \<Rightarrow> string" where
  "exPosition n =
     (if n = exSpecAB then ''main.go:5:5''
      else if n = exSpecH then ''main.go:7:5''
      else if n = exSpecC then ''main.go:9:6''
      else if n = exSpecD then ''main.go:16:6''
      else if n = exSend then ''main.go:18:2''
      else if n = exGo then ''main.go:19:2''
      else if n = Ident 225 ''p'' then ''main.go:19:7''
      else if n = Ident 228 ''x'' then ''main.go:19:10''
      else ''main.go:1:1'')"

text \<open>
  The printer's text for the nodes of the file that \<open>printError\<close> can be given: the
  specs, the send and go statements and the arguments of the call. The example has no
  text for any other node; the printer of the Go library has none for a node that is no
  expression, statement, declaration or spec, such as the field list of a function type.
\<close>

definition exFprint :: "node \<Rightarrow> error + string" where
  "exFprint n =
     (if n = exSpecAB then Inr ''a, b int''
      else if n = exSpecC then Inr ''c int''
      else if n = exSpecD then Inr ''d int''
      else if n = exSpecH
        then Inr (''h = func() {'' @ [CHR 0x0A, CHR 0x09] @ ''println(a)'' @
                  [CHR 0x0A, CHR 0x09] @ ''var c int'' @ [CHR 0x0A, CHR 0x09] @ ''_ = c'' @
                  [CHR 0x0A] @ ''}'')
      else if n = exSend then Inr ''ch <- s''
      else if n = exGo then Inr ''go f(p, x)''
      else if n = Ident 225 ''p'' then Inr ''p''
      else if n = Ident 228 ''x'' then Inr ''x''
      else Inl PrinterError)"

definition exFileSet :: FileSet where
  "exFileSet = \<lparr>Position = exPosition, Fprint = exFprint\<rparr>"

definition exVisitor :: visitor where
  "exVisitor = \<lparr>fset = exFileSet, info = \<lparr>TypeOf = exTypes\<rparr>, isInsideFunction = False\<rparr>"

definition exWorld :: world where
  "exWorld = \<lparr>stdout = [], heap = [exVisitor]\<rparr>"

fun exTypeString :: "ty \<Rightarrow> string" where
  "exTypeString (Basic Int0) = ''int''"
| "exTypeString (Basic UnsafePointer) = ''unsafe.Pointer''"
| "exTypeString (Pointer t) = ''*'' @ exTypeString t"
| "exTypeString (Slice t) = ''[]'' @ exTypeString t"
| "exTypeString (Signature ps rs) = ''func(p *int, x unsafe.Pointer)''"
| "exTypeString t = ''T''"

lemmas ex_defs = exSpecAB_def exSpecC_def exSpecD_def exSpecH_def exFile_def exFuncLit_def
  exSend_def exGo_def exFuncF_def exFuncChildren_def exFuncDecl_def exTypes_def exPosition_def
  exFprint_def exFileSet_def exVisitor_def exWorld_def

section \<open>Properties of the classifier\<close>

lemma false_witness:
  "\<not> fst (typeContainsPointer t) \<Longrightarrow> snd (typeContainsPointer t) = None"
  "\<not> fst (structFields fs) \<Longrightarrow> snd (structFields fs) = None"
  by (induction t and fs rule: typeContainsPointer_structFields.induct)
     (auto split: prod.splits if_splits)

lemma true_witness:
  "fst (typeContainsPointer t) \<Longrightarrow> t \<noteq> None \<Longrightarrow> snd (typeContainsPointer t) \<noteq> None"
  "fst (structFields fs) \<Longrightarrow> snd (structFields fs) \<noteq> None"
  by (induction t and fs rule: typeContainsPointer_structFields.induct)
     (auto split: prod.splits if_splits)

lemma structFields_find:
  "structFields fs =
     (case find (\<lambda>f. fst (typeContainsPointer (Some (snd f)))) fs of
        None \<Rightarrow> (False, None)
      | Some f \<Rightarrow> (True, snd (typeContainsPointer (Some (snd f)))))"
  by (induction fs) (auto split: prod.splits)

lemma unlisted_fallback: "\<not> listed t \<Longrightarrow> typeContainsPointer t = (True, t)"
  by (cases t rule: listed.cases) simp_all

text \<open>
  Claim C1 (scalar types). The claim has two halves: a \<open>Basic\<close> type of kind
  \<open>UnsafePointer\<close> classifies as \<open>contains = false\<close>, and every other \<open>Basic\<close> type as
  \<open>contains = true\<close> with itself as witness. The code does the second for every kind,
  \<open>UnsafePointer\<close> included: the \<^verbatim>\<open>if\<close> of line 21 has no \<^verbatim>\<open>else\<close>, so for
  \<open>UnsafePointer\<close> control leaves the switch and returns \<^verbatim>\<open>true, t\<close> at line 50. The
  theorem evaluates the classifier there, and on every kind.
\<close>

theorem classify_basic_always_positive:
  "typeContainsPointer (Some (Basic UnsafePointer)) = (True, Some (Basic UnsafePointer))
   \<and> typeContainsPointer (Some (Basic k)) = (True, Some (Basic k))"
  by simp

text \<open>
  Claim C8 (decision table, non-recursive shapes). \<open>Array\<close>, \<open>Map\<close>, \<open>Pointer\<close> and
  \<open>Slice\<close> types classify as \<open>(true, the type itself)\<close>; \<open>Chan\<close> and \<open>Interface\<close> types
  as \<open>(false, nil)\<close>; every shape the switch does not list takes the fallback
  \<open>(true, the type itself)\<close>; and whenever the verdict is false the witness is nil.
\<close>

theorem classify_decision_table:
  "typeContainsPointer (Some (Array n e)) = (True, Some (Array n e))
   \<and> typeContainsPointer (Some (Map k e)) = (True, Some (Map k e))
   \<and> typeContainsPointer (Some (Pointer e)) = (True, Some (Pointer e))
   \<and> typeContainsPointer (Some (Slice e)) = (True, Some (Slice e))
   \<and> typeContainsPointer (Some (Chan d e)) = (False, None)
   \<and> typeContainsPointer (Some (Interface ms)) = (False, None)
   \<and> (\<not> listed t \<longrightarrow> typeContainsPointer t = (True, t))
   \<and> (\<not> fst (typeContainsPointer u) \<longrightarrow> snd (typeContainsPointer u) = None)"
  using unlisted_fallback [of t] false_witness(1) [of u] by simp

theorem classify_decision_table_witness:
  "\<not> listed (Some (Signature [Basic Int0] []))
   \<and> typeContainsPointer (Some (Signature [Basic Int0] [])) = (True, Some (Signature [Basic Int0] []))
   \<and> \<not> fst (typeContainsPointer (Some (Struct [(''c'', Chan SendRecv (Basic Int0))])))
   \<and> snd (typeContainsPointer (Some (Struct [(''c'', Chan SendRecv (Basic Int0))]))) = None"
  using classify_decision_table [of _ _ _ _ _ "Some (Signature [Basic Int0] [])"
          "Some (Struct [(''c'', Chan SendRecv (Basic Int0))])"]
  by simp

text \<open>
  Claim C5 (struct types). A \<open>Struct\<close> classifies as true iff some field's type does; the
  verdict is that of the first such field in declaration order, witness included, and
  \<open>(false, nil)\<close> when there is none. For fields \<open>[A, B, C]\<close> where \<open>A\<close> does not qualify
  and \<open>B\<close> does, the witness is the one returned for \<open>B\<close>.
\<close>

theorem classify_struct_first_field:
  "typeContainsPointer (Some (Struct flds)) =
     (case find (\<lambda>f. fst (typeContainsPointer (Some (snd f)))) flds of
        None \<Rightarrow> (False, None)
      | Some f \<Rightarrow> (True, snd (typeContainsPointer (Some (snd f)))))
   \<and> (fst (typeContainsPointer (Some (Struct flds))) \<longleftrightarrow>
        (\<exists>f \<in> set flds. fst (typeContainsPointer (Some (snd f)))))
   \<and> (\<not> fst (typeContainsPointer (Some A)) \<longrightarrow> fst (typeContainsPointer (Some B)) \<longrightarrow>
        typeContainsPointer (Some (Struct [(a, A), (b, B), (c, C)])) =
          (True, snd (typeContainsPointer (Some B))))"
proof (intro conjI impI)
  show first: "typeContainsPointer (Some (Struct flds)) =
     (case find (\<lambda>f. fst (typeContainsPointer (Some (snd f)))) flds of
        None \<Rightarrow> (False, None)
      | Some f \<Rightarrow> (True, snd (typeContainsPointer (Some (snd f)))))"
    by (simp add: structFields_find)
  show "fst (typeContainsPointer (Some (Struct flds))) \<longleftrightarrow>
        (\<exists>f \<in> set flds. fst (typeContainsPointer (Some (snd f))))"
    unfolding first by (auto simp: find_None_iff find_Some_iff split: option.splits)
next
  assume "\<not> fst (typeContainsPointer (Some A))" and "fst (typeContainsPointer (Some B))"
  then show "typeContainsPointer (Some (Struct [(a, A), (b, B), (c, C)])) =
          (True, snd (typeContainsPointer (Some B)))"
    by (simp add: case_prod_beta)
qed

theorem classify_struct_first_field_witness:
  "\<not> fst (typeContainsPointer (Some (Interface [])))
   \<and> fst (typeContainsPointer (Some (Named ''P'' (Pointer (Basic Int0)))))
   \<and> fst (typeContainsPointer (Some (Slice (Basic String))))
   \<and> typeContainsPointer (Some (Struct [(''a'', Interface []),
         (''b'', Named ''P'' (Pointer (Basic Int0))), (''c'', Slice (Basic String))])) =
       (True, Some (Pointer (Basic Int0)))"
  using classify_struct_first_field [of "[]" "Interface []" "Named ''P'' (Pointer (Basic Int0))"
          "''a''" "''b''" "''c''" "Slice (Basic String)"]
  by simp

text \<open>
  Claim C6 (named types). A \<open>Named\<close> type classifies exactly as its underlying type,
  verdict and witness alike; a chain \<open>N1 \<rightarrow> N2 \<rightarrow> Chan\<close> classifies as false.
\<close>

theorem classify_named_transparent:
  "typeContainsPointer (Some (Named n u)) = typeContainsPointer (Some u)
   \<and> typeContainsPointer (Some (Named n1 (Named n2 (Chan d e)))) = (False, None)"
  by simp

section \<open>Properties of the reporter\<close>

lemma andThen_Inr [simp]: "andThen (Inr x, w) k = k x w"
  by (simp add: andThen_def)

lemma andThen_Inl [simp]: "andThen (Inl e, w) k = (Inl e, w)"
  by (simp add: andThen_def)

lemma andThen_return [simp]: "andThen r (\<lambda>_. Pair (Inr ())) = r" for r :: "unit outcome"
  by (cases r; cases "fst r") auto

lemma emit_Nil [simp]: "emit w [] = w"
  by (simp add: emit_def)

lemma emit_emit [simp]: "emit (emit w ds) es = emit w (ds @ es)"
  by (simp add: emit_def)

lemma heap_emit [simp]: "heap (emit w ds) = heap w"
  by (simp add: emit_def)

lemma stdout_emit [simp]: "stdout (emit w ds) = stdout w @ ds"
  by (simp add: emit_def)

lemma printError_typed:
  "printError fs n msg (Some t) w = (Inr (), emit w [report fs n msg (OfType t)])"
  by (simp add: printError_def emit_def report_def)

lemma printError_text:
  "Fprint fs n = Inr s \<Longrightarrow>
   printError fs n msg None w = (Inr (), emit w [report fs n msg (OfText s)])"
  by (simp add: printError_def stringifyNode_def emit_def report_def)

lemma printError_panic:
  "Fprint fs n = Inl e \<Longrightarrow> printError fs n msg None w = (Inl e, w)"
  by (simp add: printError_def stringifyNode_def)

lemma count_list_absent: "x \<notin> set xs \<Longrightarrow> count_list xs x = 0"
  by (induction xs) auto

lemma Printf_one_line:
  assumes "CHR 0x0A \<notin> set (position d)" and "CHR 0x0A \<notin> set (message d)"
    and "CHR 0x0A \<notin> set (showAnnotation typeString (annotation d))"
  shows "count_list (Printf typeString d) (CHR 0x0A) = 1"
  using assms by (simp add: Printf_def count_list_absent)

text \<open>
  Claim C4 (the reporter), as amended. For every finding \<open>printError\<close> makes exactly one
  write. Its text is \<^verbatim>\<open><position>:warning: <message> (<annotation>)\<close> and a newline,
  with no space between the colon that ends the position and \<^verbatim>\<open>warning\<close>; it is one
  line when the position, the message and the annotation hold no newline. The
  annotation is the textual form of the witness type when a type was implicated, and
  otherwise the source text of the node as the printer gives it; when the printer fails
  on the node, \<open>printError\<close> panics and writes nothing.
\<close>

theorem printError_one_write:
  "printError fs n msg (Some t) w = (Inr (), emit w [report fs n msg (OfType t)])
   \<and> (Fprint fs n = Inr s \<longrightarrow>
        printError fs n msg None w = (Inr (), emit w [report fs n msg (OfText s)]))
   \<and> (Fprint fs n = Inl e \<longrightarrow> printError fs n msg None w = (Inl e, w))
   \<and> Printf typeString (report fs n msg (OfType t)) =
        Position fs n @ '':warning: '' @ msg @ '' ('' @ typeString t @ '')'' @ [CHR 0x0A]
   \<and> Printf typeString (report fs n msg (OfText s)) =
        Position fs n @ '':warning: '' @ msg @ '' ('' @ s @ '')'' @ [CHR 0x0A]
   \<and> (CHR 0x0A \<notin> set (position d) \<and> CHR 0x0A \<notin> set (message d) \<and>
        CHR 0x0A \<notin> set (showAnnotation typeString (annotation d)) \<longrightarrow>
        count_list (Printf typeString d) (CHR 0x0A) = 1)"
  using Printf_one_line [of d typeString]
  by (simp add: printError_typed printError_text printError_panic Printf_def report_def
        showAnnotation_def)

theorem printError_one_write_witness:
  "printError exFileSet exSpecAB ''global var declared'' None exWorld =
     (Inr (), emit exWorld [report exFileSet exSpecAB ''global var declared'' (OfText ''a, b int'')])
   \<and> printError exFileSet (Other ''FieldList'' 58 []) ''global var declared'' None exWorld =
       (Inl PrinterError, exWorld)
   \<and> Printf exTypeString (report exFileSet exSend ''sending pointer type over a channel''
         (OfType (Slice (Basic Int0)))) =
       ''main.go:18:2:warning: sending pointer type over a channel ([]int)'' @ [CHR 0x0A]
   \<and> count_list (Printf exTypeString (report exFileSet exSend
         ''sending pointer type over a channel'' (OfType (Slice (Basic Int0))))) (CHR 0x0A) = 1"
  using printError_one_write [of exFileSet exSpecAB "''global var declared''" "Slice (Basic Int0)"
      exWorld "''a, b int''" PrinterError exTypeString
      "report exFileSet exSend ''sending pointer type over a channel'' (OfType (Slice (Basic Int0)))"]
    printError_one_write [of exFileSet "Other ''FieldList'' 58 []" "''global var declared''"
      "Slice (Basic Int0)" exWorld "''a, b int''" PrinterError exTypeString
      "report exFileSet exSend ''sending pointer type over a channel'' (OfType (Slice (Basic Int0)))"]
    printError_one_write [of exFileSet exSend "''sending pointer type over a channel''"
      "Slice (Basic Int0)" exWorld "''a, b int''" PrinterError exTypeString
      "report exFileSet exSend ''sending pointer type over a channel'' (OfType (Slice (Basic Int0)))"]
  by (simp add: ex_defs report_def showAnnotation_def)

text \<open>
  The claim as the specification states it, with a space after the first colon, fails
  on the diagnostic of \<^verbatim>\<open>var a, b int\<close>.
\<close>

theorem printError_format_counterexample:
  "map (Printf exTypeString)
       (stdout (snd (printError exFileSet exSpecAB ''global var declared'' None exWorld))) =
     [''main.go:5:5:warning: global var declared (a, b int)'' @ [CHR 0x0A]]
   \<and> specLine ''main.go:5:5'' ''global var declared'' ''a, b int'' =
       ''main.go:5:5: warning: global var declared (a, b int)'' @ [CHR 0x0A]
   \<and> map (Printf exTypeString)
       (stdout (snd (printError exFileSet exSpecAB ''global var declared'' None exWorld))) \<noteq>
     [specLine (Position exFileSet exSpecAB) ''global var declared'' ''a, b int'']"
  by (simp add: ex_defs printError_def stringifyNode_def Printf_def showAnnotation_def
        specLine_def)

section \<open>Properties of one visit\<close>

lemma deref_valid [simp]: "v < length (heap w) \<Longrightarrow> deref w v = (Inr (heap w ! v), w)"
  by (simp add: deref_def)

lemma deref_invalid [simp]: "\<not> v < length (heap w) \<Longrightarrow> deref w v = (Inl NilDereference, w)"
  by (simp add: deref_def)

lemma deref_Inr:
  "deref w v = (Inr vis, w1) \<Longrightarrow> w1 = w \<and> v < length (heap w) \<and> vis = heap w ! v"
  by (auto simp: deref_def split: if_splits)

lemma goArgs_typed:
  assumes "\<forall>arg \<in> set args. TypeOf (info vis) arg \<noteq> None"
  shows "goArgs vis args w =
     (Inr (),
      emit w (concat (map (\<lambda>arg.
        case typeContainsPointer (TypeOf (info vis) arg) of
          (True, Some witness) \<Rightarrow>
            [report (fset vis) arg ''calling goroutine with a pointer type'' (OfType witness)]
        | _ \<Rightarrow> []) args)))"
  using assms
proof (induction args arbitrary: w)
  case Nil
  show ?case by simp
next
  case (Cons arg args)
  from Cons.prems obtain t where t: "TypeOf (info vis) arg = Some t" by auto
  show ?case
  proof (cases "fst (typeContainsPointer (Some t))")
    case True
    with true_witness(1) [of "Some t"] obtain witness
      where "typeContainsPointer (Some t) = (True, Some witness)"
      by (cases "typeContainsPointer (Some t)") auto
    with t Cons show ?thesis by (simp add: printError_typed)
  next
    case False
    then obtain x where "typeContainsPointer (Some t) = (False, x)"
      by (cases "typeContainsPointer (Some t)") auto
    with t Cons show ?thesis by simp
  qed
qed

lemma varSpecs_text:
  assumes "\<forall>spec \<in> set specs. Fprint (fset vis) spec = Inr (src spec)"
  shows "varSpecs vis specs w =
     (Inr (), emit w (map (\<lambda>spec. report (fset vis) spec ''global var declared''
                                   (OfText (src spec))) specs))"
  using assms
  by (induction specs arbitrary: w) (simp_all add: printError_text)

lemma visit_var_file_scope:
  assumes "v < length (heap w)" and "\<not> isInsideFunction (heap w ! v)"
    and "\<forall>spec \<in> set specs. Fprint (fset (heap w ! v)) spec = Inr (src spec)"
  shows "Visit v (Some (GenDecl p VAR specs)) w =
     (Inr v, emit w (map (\<lambda>spec. report (fset (heap w ! v)) spec ''global var declared''
                                   (OfText (src spec))) specs))"
  using assms(1,2) by (simp add: varSpecs_text [OF assms(3)])

text \<open>
  Claim C7 (channel send). At a send statement whose value expression has a resolved
  type, the visitor emits exactly one diagnostic \<open>sending pointer type over a channel\<close>,
  annotated with the witness type, when the type classifies as containing a pointer, and
  nothing otherwise; sending a value of a slice type gives exactly that one diagnostic,
  annotated with the slice type.
\<close>

theorem visit_send:
  assumes "v < length (heap w)" and "TypeOf (info (heap w ! v)) val = Some t"
  shows "(fst (typeContainsPointer (Some t)) \<longrightarrow>
            (\<exists>witness. snd (typeContainsPointer (Some t)) = Some witness \<and>
               Visit v (Some (SendStmt ch arrow val)) w =
                 (Inr v, emit w [report (fset (heap w ! v)) (SendStmt ch arrow val)
                                   ''sending pointer type over a channel'' (OfType witness)])))
         \<and> (\<not> fst (typeContainsPointer (Some t)) \<longrightarrow>
              Visit v (Some (SendStmt ch arrow val)) w = (Inr v, w))
         \<and> (\<forall>e. t = Slice e \<longrightarrow>
              Visit v (Some (SendStmt ch arrow val)) w =
                (Inr v, emit w [report (fset (heap w ! v)) (SendStmt ch arrow val)
                                  ''sending pointer type over a channel'' (OfType (Slice e))]))"
  using assms true_witness(1) [of "Some t"]
  by (auto simp: printError_typed case_prod_beta)

theorem visit_send_witness:
  "stdout (snd (Visit 0 (Some exSend) exWorld)) =
     [\<lparr>position = ''main.go:18:2'', message = ''sending pointer type over a channel'',
       annotation = OfType (Slice (Basic Int0))\<rparr>]
   \<and> Visit 0 (Some (SendStmt (Ident 211 ''ch'') 214 (Ident 211 ''ch''))) exWorld = (Inr 0, exWorld)"
  using visit_send [of 0 exWorld "Ident 217 ''s''" "Slice (Basic Int0)" "Ident 211 ''ch''" 214]
    visit_send [of 0 exWorld "Ident 211 ''ch''" "Chan SendRecv (Slice (Basic Int0))"
      "Ident 211 ''ch''" 214]
  by (simp add: ex_defs report_def emit_def)

text \<open>
  The rule of claim C2 for a go statement whose function and arguments have resolved
  types: one diagnostic for the function when its type classifies as containing a
  pointer, then one for each argument whose type does, in order.
\<close>

lemma visit_go_statement:
  assumes "v < length (heap w)"
    and "TypeOf (info (heap w ! v)) fn \<noteq> None"
    and "\<forall>arg \<in> set args. TypeOf (info (heap w ! v)) arg \<noteq> None"
  shows "Visit v (Some (GoStmt go fn args)) w =
     (Inr v,
      emit w
        ((case typeContainsPointer (TypeOf (info (heap w ! v)) fn) of
            (True, Some witness) \<Rightarrow>
              [report (fset (heap w ! v)) (GoStmt go fn args)
                 ''calling goroutine on a pointer type'' (OfType witness)]
          | _ \<Rightarrow> []) @
         concat (map (\<lambda>arg.
            case typeContainsPointer (TypeOf (info (heap w ! v)) arg) of
              (True, Some witness) \<Rightarrow>
                [report (fset (heap w ! v)) arg
                   ''calling goroutine with a pointer type'' (OfType witness)]
            | _ \<Rightarrow> []) args)))"
proof -
  from assms(2) obtain t where t: "TypeOf (info (heap w ! v)) fn = Some t" by auto
  show ?thesis
  proof (cases "fst (typeContainsPointer (Some t))")
    case True
    with true_witness(1) [of "Some t"] obtain witness
      where "typeContainsPointer (Some t) = (True, Some witness)"
      by (cases "typeContainsPointer (Some t)") auto
    with t assms(1) show ?thesis
      by (simp add: printError_typed goArgs_typed [OF assms(3)])
  next
    case False
    then obtain x where "typeContainsPointer (Some t) = (False, x)"
      by (cases "typeContainsPointer (Some t)") auto
    with t assms(1) show ?thesis
      by (simp add: goArgs_typed [OF assms(3)])
  qed
qed

text \<open>
  Claim C2 (go statement). The claim's example, \<^verbatim>\<open>go f(p, x)\<close> with \<open>p\<close> of a pointer
  type and \<open>x\<close> of type \<^verbatim>\<open>unsafe.Pointer\<close>, is to give exactly one argument diagnostic,
  for \<open>p\<close>. The code gives two, one for \<open>p\<close> and one for \<open>x\<close>, because the classifier
  returns true for \<open>Basic UnsafePointer\<close> (see claim C1); the theorem evaluates the visit
  of that statement.
\<close>

theorem go_unsafe_pointer_argument_reported:
  "exGo = GoStmt 220 (Ident 223 ''f'') [Ident 225 ''p'', Ident 228 ''x'']
   \<and> exTypes (Ident 225 ''p'') = Some (Pointer (Basic Int0))
   \<and> exTypes (Ident 228 ''x'') = Some (Basic UnsafePointer)
   \<and> Visit 0 (Some exGo) exWorld =
      (Inr 0, emit exWorld
        [report exFileSet exGo ''calling goroutine on a pointer type''
           (OfType (Signature [Pointer (Basic Int0), Basic UnsafePointer] [])),
         report exFileSet (Ident 225 ''p'') ''calling goroutine with a pointer type''
           (OfType (Pointer (Basic Int0))),
         report exFileSet (Ident 228 ''x'') ''calling goroutine with a pointer type''
           (OfType (Basic UnsafePointer))])"
  by (simp add: ex_defs printError_typed)

section \<open>Frame conditions of the traversal\<close>

lemma adds_refl [simp]: "adds P w w"
  by (simp add: adds_def)

lemma adds_trans: "adds P w w1 \<Longrightarrow> adds P w1 w2 \<Longrightarrow> adds P w w2"
  by (auto simp: adds_def)

lemma adds_mono: "adds P w w' \<Longrightarrow> (\<And>d. P d \<Longrightarrow> Q d) \<Longrightarrow> adds Q w w'"
  by (auto simp: adds_def list_all_iff)

lemma adds_heap_nth: "adds P w w' \<Longrightarrow> a < length (heap w) \<Longrightarrow> heap w' ! a = heap w ! a"
  by (auto simp: adds_def nth_append)

lemma adds_heap_length: "adds P w w' \<Longrightarrow> length (heap w) \<le> length (heap w')"
  by (auto simp: adds_def)

lemma andThen_adds:
  assumes "adds P w (snd r)"
    and "\<And>x w1. r = (Inr x, w1) \<Longrightarrow> adds P w w1 \<Longrightarrow> adds P w1 (snd (k x w1))"
  shows "adds P w (snd (andThen r k))"
proof (cases r)
  case (Pair res w1)
  show ?thesis
  proof (cases res)
    case (Inl e)
    with Pair assms(1) show ?thesis by simp
  next
    case (Inr x)
    with Pair assms have "adds P w w1" and "adds P w1 (snd (k x w1))" by auto
    with Pair Inr show ?thesis by (auto intro: adds_trans)
  qed
qed

lemma printError_adds: "adds (\<lambda>d. message d = msg) w (snd (printError fs n msg t w))"
  by (auto simp: printError_def stringifyNode_def adds_def split: option.splits sum.splits)

lemma goArgs_adds:
  "adds (\<lambda>d. message d = ''calling goroutine with a pointer type'') w (snd (goArgs vis args w))"
proof (induction args arbitrary: w)
  case Nil
  show ?case by simp
next
  case (Cons arg args)
  show ?case
    by (auto simp: case_prod_beta intro!: andThen_adds printError_adds Cons.IH)
qed

lemma varSpecs_adds:
  "adds (\<lambda>d. message d = ''global var declared'') w (snd (varSpecs vis specs w))"
proof (induction specs arbitrary: w)
  case Nil
  show ?case by simp
next
  case (Cons spec specs)
  show ?case
    by (auto intro!: andThen_adds printError_adds Cons.IH)
qed

lemma deref_adds: "adds P w (snd (deref w v))"
  by (simp add: deref_def)

lemma inside_False [simp]: "inside False v w"
  by (simp add: inside_def)

lemma inside_adds: "inside s v w \<Longrightarrow> adds P w w' \<Longrightarrow> inside s v w'"
  using adds_heap_nth [of P w w' v] adds_heap_length [of P w w']
  by (auto simp: inside_def)

lemma Visit_adds:
  assumes "inside s v w"
  shows "adds (allowed s) w (snd (Visit v n w))"
proof (cases "(v, n, w)" rule: Visit.cases)
  case (1 v0 ch arrow val w0)
  then show ?thesis
    by (auto simp: case_prod_beta allowed_def
          intro!: andThen_adds deref_adds adds_mono [OF printError_adds])
next
  case (2 v0 go fn args w0)
  then show ?thesis
    by (auto simp: case_prod_beta allowed_def
          intro!: andThen_adds deref_adds adds_mono [OF printError_adds]
            adds_mono [OF goArgs_adds])
next
  case (3 v0 tokPos tok specs w0)
  with assms show ?thesis
    by (auto simp: allowed_def inside_def dest!: deref_Inr
          intro!: andThen_adds deref_adds adds_mono [OF varSpecs_adds])
next
  case (4 v0 children w0)
  have "adds (allowed s) w1 (w1\<lparr>heap := heap w1 @ [x]\<rparr>)" for w1 x
    by (simp add: adds_def)
  with 4 show ?thesis
    by (auto intro!: andThen_adds deref_adds)
qed auto

lemma Visit_result:
  assumes "Visit v n w = (Inr v', w')"
  shows "v' = v \<or>
         (v < length (heap w) \<and> v' = length (heap w) \<and>
          w' = w\<lparr>heap := heap w @ [(heap w ! v)\<lparr>isInsideFunction := True\<rparr>]\<rparr>)"
  using assms
  by (cases "(v, n, w)" rule: Visit.cases)
     (auto simp: andThen_def deref_def case_prod_beta split: if_splits sum.splits prod.splits)

lemma Visit_inside:
  assumes "inside s v w" and "Visit v n w = (Inr v', w')"
  shows "inside s v' w'"
proof -
  from Visit_adds [OF assms(1), of n] assms(2) have "adds (allowed s) w w'" by simp
  with assms(1) have "inside s v w'" by (rule inside_adds)
  with Visit_result [OF assms(2)] show ?thesis
    by (auto simp: inside_def nth_append)
qed

text \<open>
  The invariant of the traversal, by induction along the recursion of \<open>Walk\<close>: a walk
  only allocates visitors and only appends diagnostics, and a walk that starts with a
  visitor of a function body never appends the diagnostic of a global variable.
\<close>

lemma Walk_adds:
  "inside s v w \<Longrightarrow> adds (allowed s) w (snd (Walk v n w))"
  "inside s v w \<Longrightarrow> adds (allowed s) w (snd (walkChildren v n w))"
  "inside s v w \<Longrightarrow> adds (allowed s) w (snd (walkList v ns w))"
proof (induction v n w and v n w and v ns w rule: Walk_walkChildren_walkList.induct)
  case (1 v n w)
  show ?case
    unfolding Walk.simps(1)
  proof (intro andThen_adds)
    show "adds (allowed s) w (snd (Visit v (Some n) w))"
      using "1.prems" by (rule Visit_adds)
  next
    fix v' w1
    assume visit: "Visit v (Some n) w = (Inr v', w1)"
    then have ins: "inside s v' w1"
      using "1.prems" Visit_inside by blast
    then show "adds (allowed s) w1 (snd (walkChildren v' n w1))"
      using "1.IH" visit by blast
    fix u w2
    assume "adds (allowed s) w1 w2"
    with ins have "inside s v' w2" by (rule inside_adds)
    then show "adds (allowed s) w2 (snd (Visit v' None w2))"
      by (rule Visit_adds)
  qed simp
next
  case (2 v ch arrow val w)
  then show ?case
    by (auto intro!: andThen_adds dest: inside_adds)
next
  case (4 v fn args w)
  then show ?case
    by (auto intro!: andThen_adds dest: inside_adds)
next
  case (6 v names tys vals w)
  then show ?case
    by (auto intro!: andThen_adds intro: adds_trans dest: inside_adds)
next
  case (11 v n ns w)
  then show ?case
    by (auto intro!: andThen_adds dest: inside_adds)
qed auto

lemma Walk_adds_result:
  "inside s v w \<Longrightarrow> Walk v n w = (r, w') \<Longrightarrow> adds (allowed s) w w'"
  using Walk_adds(1) [of s v w n] by simp

lemma walkChildren_adds_result:
  "inside s v w \<Longrightarrow> walkChildren v n w = (r, w') \<Longrightarrow> adds (allowed s) w w'"
  using Walk_adds(2) [of s v w n] by simp

lemma Walk_frame:
  assumes "Walk v n w = (r, w')"
  shows "adds (\<lambda>d. True) w w'"
  using Walk_adds_result [of False v w n r w'] assms
  by (auto intro: adds_mono)

lemma walkChildren_frame:
  assumes "walkChildren v n w = (r, w')"
  shows "adds (\<lambda>d. True) w w'"
  using walkChildren_adds_result [of False v w n r w'] assms
  by (auto intro: adds_mono)

lemma Walk_heap_cell:
  "Walk v n w = (r, w') \<Longrightarrow> a < length (heap w) \<Longrightarrow>
     a < length (heap w') \<and> heap w' ! a = heap w ! a"
  using adds_heap_nth [OF Walk_frame, of v n w r w' a]
    adds_heap_length [OF Walk_frame, of v n w r w']
  by simp

lemma Walk_below_FuncDecl:
  assumes "v < length (heap w)" and "Walk v (FuncDecl cs) w = (r, w')"
  shows "\<exists>ds. stdout w' = stdout w @ ds \<and>
              list_all (\<lambda>d. message d \<noteq> ''global var declared'') ds"
proof -
  let ?w1 = "w\<lparr>heap := heap w @ [(heap w ! v)\<lparr>isInsideFunction := True\<rparr>]\<rparr>"
  let ?v' = "length (heap w)"
  have ins: "inside True ?v' ?w1" by (simp add: inside_def)
  obtain r2 w2 where ch: "walkChildren ?v' (FuncDecl cs) ?w1 = (r2, w2)"
    by (cases "walkChildren ?v' (FuncDecl cs) ?w1")
  from walkChildren_adds_result [OF ins ch] have a: "adds (allowed True) ?w1 w2" .
  from assms ch have "w' = w2"
    unfolding Walk.simps(1) by (cases r2) (auto simp del: walkChildren.simps)
  with a show ?thesis
    by (auto simp: adds_def allowed_def list_all_iff)
qed

section \<open>Properties of the scopes\<close>

text \<open>
  Claim C3 (variable declarations), as amended. A \<^verbatim>\<open>var\<close> declaration visited at file
  scope (the flag \<open>isInsideFunction\<close> of the visitor is false) gives one diagnostic
  \<open>global var declared\<close> per spec of the declaration, in order, each annotated with the
  source text of its spec; \<^verbatim>\<open>var a, b int\<close> is one spec and gives one diagnostic for its
  two names. The same declaration visited with a set flag gives none, and the walk of a
  function declaration emits no such diagnostic at all, whatever its body holds.
\<close>

theorem visit_var_decl:
  "(v < length (heap w) \<and> \<not> isInsideFunction (heap w ! v) \<and>
      (\<forall>spec \<in> set specs. Fprint (fset (heap w ! v)) spec = Inr (src spec)) \<longrightarrow>
      Visit v (Some (GenDecl p VAR specs)) w =
        (Inr v, emit w (map (\<lambda>spec. report (fset (heap w ! v)) spec ''global var declared''
                                      (OfText (src spec))) specs)))
   \<and> (v < length (heap w) \<and> isInsideFunction (heap w ! v) \<longrightarrow>
        Visit v (Some (GenDecl p tok specs)) w = (Inr v, w))
   \<and> (v < length (heap w) \<and> Walk v (FuncDecl cs) w = (r, w') \<longrightarrow>
        (\<exists>ds. stdout w' = stdout w @ ds \<and>
              list_all (\<lambda>d. message d \<noteq> ''global var declared'') ds))"
  using visit_var_file_scope [of v w specs src p] Walk_below_FuncDecl [of v w cs r w']
  by simp

theorem visit_var_decl_witness:
  "Visit 0 (Some (GenDecl 32 VAR [exSpecAB, exSpecC])) exWorld =
     (Inr 0, emit exWorld [report exFileSet exSpecAB ''global var declared'' (OfText ''a, b int''),
                           report exFileSet exSpecC ''global var declared'' (OfText ''c int'')])
   \<and> Visit 1 (Some (GenDecl 193 VAR [exSpecD])) (snd (Visit 0 (Some exFuncDecl) exWorld)) =
       (Inr 1, snd (Visit 0 (Some exFuncDecl) exWorld))
   \<and> map message (stdout (snd (Walk 0 exFuncDecl exWorld))) =
       [''sending pointer type over a channel'', ''calling goroutine on a pointer type'',
        ''calling goroutine with a pointer type'', ''calling goroutine with a pointer type'']"
  using visit_var_decl [of 0 exWorld "[exSpecAB, exSpecC]"
      "\<lambda>n. if n = exSpecAB then ''a, b int'' else ''c int''" 32 VAR "[]" "Inr ()" exWorld]
    visit_var_decl [of 1 "snd (Visit 0 (Some exFuncDecl) exWorld)" "[exSpecD]" "\<lambda>n. ''d int''"
      193 VAR "[]" "Inr ()" "snd (Visit 0 (Some exFuncDecl) exWorld)"]
    visit_var_decl [of 0 exWorld "[]" "\<lambda>n. ''d int''" 193 VAR exFuncChildren
      "fst (Walk 0 exFuncDecl exWorld)" "snd (Walk 0 exFuncDecl exWorld)"]
  by (simp add: ex_defs printError_text printError_typed report_def emit_def Walk.simps(1))

text \<open>
  The claim as stated, one diagnostic per declared name, fails on \<^verbatim>\<open>var a, b int\<close> at
  file scope: two names, one diagnostic.
\<close>

theorem var_decl_per_name_counterexample:
  "Visit 0 (Some (GenDecl 32 VAR [exSpecAB])) exWorld =
     (Inr 0, emit exWorld [report exFileSet exSpecAB ''global var declared'' (OfText ''a, b int'')])
   \<and> declaredNames [exSpecAB] = [Ident 36 ''a'', Ident 39 ''b'']
   \<and> length (stdout (snd (Visit 0 (Some (GenDecl 32 VAR [exSpecAB])) exWorld))) \<noteq>
       length (stdout exWorld) + length (declaredNames [exSpecAB])"
  by (simp add: ex_defs printError_text declaredNames_def)

text \<open>
  Claim C9 (function declarations). At a function declaration \<open>Visit\<close> returns a new
  visitor, the copy of the current one with \<open>isInsideFunction\<close> set, and leaves the
  current one as it was. No walk changes a visitor that exists when it starts; so after
  the walk of a function declaration the flag of the parent visitor is what it was, and a
  \<^verbatim>\<open>var\<close> declaration that the parent visits afterwards at file scope is reported as
  before.
\<close>

theorem funcdecl_child_scope_frame:
  "(v < length (heap w) \<longrightarrow>
      Visit v (Some (FuncDecl cs)) w =
        (Inr (length (heap w)),
         w\<lparr>heap := heap w @ [(heap w ! v)\<lparr>isInsideFunction := True\<rparr>]\<rparr>))
   \<and> (a < length (heap w) \<and> Walk v n w = (r, w') \<longrightarrow> heap w' ! a = heap w ! a)
   \<and> (v < length (heap w) \<and> Walk v (FuncDecl cs) w = (r, w') \<longrightarrow>
        isInsideFunction (heap w' ! v) = isInsideFunction (heap w ! v)
        \<and> (\<not> isInsideFunction (heap w ! v) \<and>
             (\<forall>spec \<in> set specs. Fprint (fset (heap w ! v)) spec = Inr (src spec)) \<longrightarrow>
             Visit v (Some (GenDecl p VAR specs)) w' =
               (Inr v, emit w' (map (\<lambda>spec. report (fset (heap w ! v)) spec
                                       ''global var declared'' (OfText (src spec))) specs))))"
proof (intro conjI impI)
  assume "v < length (heap w)"
  then show "Visit v (Some (FuncDecl cs)) w =
        (Inr (length (heap w)),
         w\<lparr>heap := heap w @ [(heap w ! v)\<lparr>isInsideFunction := True\<rparr>]\<rparr>)"
    by simp
next
  assume "a < length (heap w) \<and> Walk v n w = (r, w')"
  then show "heap w' ! a = heap w ! a"
    using Walk_heap_cell by blast
next
  assume h: "v < length (heap w) \<and> Walk v (FuncDecl cs) w = (r, w')"
  then have cell: "v < length (heap w')" "heap w' ! v = heap w ! v"
    using Walk_heap_cell [of v "FuncDecl cs" w r w' v] by auto
  then show "isInsideFunction (heap w' ! v) = isInsideFunction (heap w ! v)"
    by simp
  assume "\<not> isInsideFunction (heap w ! v) \<and>
      (\<forall>spec \<in> set specs. Fprint (fset (heap w ! v)) spec = Inr (src spec))"
  with cell show "Visit v (Some (GenDecl p VAR specs)) w' =
               (Inr v, emit w' (map (\<lambda>spec. report (fset (heap w ! v)) spec
                                       ''global var declared'' (OfText (src spec))) specs))"
    using visit_var_file_scope [of v w' specs src p] by simp
qed

theorem funcdecl_child_scope_frame_witness:
  "Visit 0 (Some exFuncDecl) exWorld =
     (Inr 1, exWorld\<lparr>heap := [exVisitor, exVisitor\<lparr>isInsideFunction := True\<rparr>]\<rparr>)
   \<and> heap (snd (Walk 0 exFuncDecl exWorld)) ! 0 = exVisitor
   \<and> \<not> isInsideFunction (heap (snd (Walk 0 exFuncDecl exWorld)) ! 0)
   \<and> Visit 0 (Some (GenDecl 32 VAR [exSpecAB])) (snd (Walk 0 exFuncDecl exWorld)) =
       (Inr 0, emit (snd (Walk 0 exFuncDecl exWorld))
                 [report exFileSet exSpecAB ''global var declared'' (OfText ''a, b int'')])"
proof -
  have valid: "(0::nat) < length (heap exWorld)"
    by (simp add: exWorld_def)
  have walk: "Walk 0 (FuncDecl exFuncChildren) exWorld =
      (fst (Walk 0 exFuncDecl exWorld), snd (Walk 0 exFuncDecl exWorld))"
    by (simp add: exFuncDecl_def)
  have printed: "\<forall>spec \<in> set [exSpecAB].
      Fprint (fset (heap exWorld ! 0)) spec = Inr ((\<lambda>n. ''a, b int'') spec)"
    by (simp add: ex_defs)
  have flag: "\<not> isInsideFunction (heap exWorld ! 0)" and cell: "heap exWorld ! 0 = exVisitor"
    and fs: "fset exVisitor = exFileSet"
    by (simp_all add: exWorld_def exVisitor_def)
  from funcdecl_child_scope_frame [of 0 exWorld exFuncChildren 0 "exFuncDecl"
      "fst (Walk 0 exFuncDecl exWorld)" "snd (Walk 0 exFuncDecl exWorld)" "[exSpecAB]"
      "\<lambda>n. ''a, b int''" 32]
    valid walk printed flag cell fs
  show ?thesis
    by (simp add: exFuncDecl_def exWorld_def)
qed

lemma andThen_heap:
  assumes "heap (snd r) = heap w"
    and "\<And>x w1. r = (Inr x, w1) \<Longrightarrow> heap (snd (k x w1)) = heap w1"
  shows "heap (snd (andThen r k)) = heap w"
  using assms by (cases r; cases "fst r") auto

lemma printError_heap: "heap (snd (printError fs n msg t w)) = heap w"
  by (simp add: printError_def split: option.splits sum.splits)

lemma goArgs_heap: "heap (snd (goArgs vis args w)) = heap w"
  by (induction args arbitrary: w)
     (auto simp: case_prod_beta printError_heap intro!: andThen_heap)

lemma varSpecs_heap: "heap (snd (varSpecs vis specs w)) = heap w"
  by (induction specs arbitrary: w) (auto simp: printError_heap intro!: andThen_heap)

lemma deref_heap: "heap (snd (deref w v)) = heap w"
  by (simp add: deref_def)

lemma Visit_heap:
  assumes "\<forall>cs. n \<noteq> Some (FuncDecl cs)"
  shows "heap (snd (Visit v n w)) = heap w"
  using assms
  by (cases "(v, n, w)" rule: Visit.cases)
     (auto simp: case_prod_beta printError_heap goArgs_heap varSpecs_heap deref_heap
        intro!: andThen_heap dest!: deref_Inr)

lemma Visit_same_scope:
  assumes "\<forall>cs. n \<noteq> Some (FuncDecl cs)" and "Visit v n w = (Inr v', w')"
  shows "v' = v \<and> heap w' = heap w"
proof
  from Visit_heap [OF assms(1), of v w] assms(2) show h: "heap w' = heap w" by simp
  from Visit_result [OF assms(2)] h show "v' = v" by auto
qed

lemma walkList_Nil [simp]: "walkList v [] = Pair (Inr ())"
  by (rule ext) simp

lemma isFuncDecl_iff: "isFuncDecl m \<longleftrightarrow> (\<exists>cs. m = FuncDecl cs)"
  by (cases m) auto

lemma withinScope_refl [simp]: "withinScope d d"
  by (subst withinScope.simps) simp

lemma withinScope_Other [simp]:
  "withinScope d (Other kind p cs) \<longleftrightarrow>
     d = Other kind p cs \<or> (\<exists>c \<in> set cs. withinScope d c)"
  by (subst withinScope.simps) simp

lemma withinScope_GenDecl [simp]:
  "withinScope d (GenDecl tokPos tok specs) \<longleftrightarrow>
     d = GenDecl tokPos tok specs \<or> (\<exists>c \<in> set specs. withinScope d c)"
  by (subst withinScope.simps) simp

lemma withinScope_ValueSpec [simp]:
  "withinScope d (ValueSpec names tys vals) \<longleftrightarrow>
     d = ValueSpec names tys vals \<or> (\<exists>c \<in> set (names @ tys @ vals). withinScope d c)"
  by (subst withinScope.simps) simp

lemma withinScope_CallExpr [simp]:
  "withinScope d (CallExpr fn args) \<longleftrightarrow>
     d = CallExpr fn args \<or> withinScope d fn \<or> (\<exists>c \<in> set args. withinScope d c)"
  by (subst withinScope.simps) simp

lemma withinScope_Ident [simp]: "withinScope d (Ident namePos name) \<longleftrightarrow> d = Ident namePos name"
  by (subst withinScope.simps) simp

lemma withinScope_FuncDecl [simp]: "withinScope d (FuncDecl cs) \<longleftrightarrow> d = FuncDecl cs"
  by (subst withinScope.simps) simp

lemma withinScope_trans:
  "withinScope l m \<Longrightarrow> withinScope d l \<Longrightarrow> withinScope d m"
proof (induction l m rule: withinScope.induct)
  case (1 l m)
  from "1.prems"(1) consider (here) "l = m"
    | (below) c where "\<not> isFuncDecl m" "c \<in> set (children m)" "withinScope l c"
    by (subst (asm) withinScope.simps) auto
  then show ?case
  proof cases
    case here
    with "1.prems"(2) show ?thesis by simp
  next
    case below
    from "1.IH" [OF below(2,3) "1.prems"(2)] have "withinScope d c" .
    with below(1,2) show ?thesis
      by (subst withinScope.simps) auto
  qed
qed

lemma andThen_Inr_elim:
  assumes "andThen r k = (Inr y, w')"
  obtains x w1 where "r = (Inr x, w1)" and "k x w1 = (Inr y, w')"
  using assms by (cases r; cases "fst r") auto

lemma Walk_Inr_elim:
  assumes "Walk v n w = (Inr (), w')"
  obtains v1 w1 where "Visit v (Some n) w = (Inr v1, w1)"
    and "walkChildren v1 n w1 = (Inr (), w')"
proof -
  from assms obtain v1 w1 where vis: "Visit v (Some n) w = (Inr v1, w1)"
    and rest: "andThen (walkChildren v1 n w1)
                 (\<lambda>_ w. andThen (Visit v1 None w) (\<lambda>_ w. (Inr (), w))) = (Inr (), w')"
    unfolding Walk.simps(1) by (rule andThen_Inr_elim)
  from rest obtain u w2 where ch: "walkChildren v1 n w1 = (Inr u, w2)"
    and "andThen (Visit v1 None w2) (\<lambda>_ w. (Inr (), w)) = (Inr (), w')"
    by (rule andThen_Inr_elim)
  then have "w2 = w'" by simp
  with vis ch that show ?thesis by simp
qed

lemma walkList_frame:
  assumes "walkList v ns w = (r, w')"
  shows "adds (\<lambda>d. True) w w'"
  using Walk_adds(3) [of False v w ns] assms
  by (auto intro: adds_mono)

lemma adds_stdout: "adds P w w' \<Longrightarrow> \<exists>ds. stdout w' = stdout w @ ds"
  by (auto simp: adds_def)

text \<open>
  A walk that returns has walked every child of the node: the walk of a child starts
  from a world that extends the first one and ends in one that the last one extends.
\<close>

lemma split_here:
  assumes "Walk v c w = (Inr u, w1)" and "adds (\<lambda>d. True) w1 w'"
  shows "\<exists>wa wb. Walk v c wa = (Inr (), wb) \<and> adds (\<lambda>d. True) w wa \<and> adds (\<lambda>d. True) wb w'"
  using assms by (intro exI [of _ w] exI [of _ w1]) simp

lemma split_widen:
  assumes "\<exists>wa wb. Walk v c wa = (Inr (), wb) \<and> adds (\<lambda>d. True) w1 wa \<and>
             adds (\<lambda>d. True) wb w2"
    and "adds (\<lambda>d. True) w w1" and "adds (\<lambda>d. True) w2 w'"
  shows "\<exists>wa wb. Walk v c wa = (Inr (), wb) \<and> adds (\<lambda>d. True) w wa \<and> adds (\<lambda>d. True) wb w'"
  using assms by (blast intro: adds_trans)

lemma walkList_split:
  assumes "walkList v ns w = (Inr (), w')" and "c \<in> set ns"
  shows "\<exists>wa wb. Walk v c wa = (Inr (), wb) \<and> adds (\<lambda>d. True) w wa \<and> adds (\<lambda>d. True) wb w'"
  using assms
proof (induction ns arbitrary: w)
  case Nil
  then show ?case by simp
next
  case (Cons n ns)
  from Cons.prems(1) obtain u w1 where first: "Walk v n w = (Inr u, w1)"
    and rest: "walkList v ns w1 = (Inr (), w')"
    by (auto elim: andThen_Inr_elim)
  show ?case
  proof (cases "c = n")
    case True
    with first walkList_frame [OF rest] show ?thesis by (auto intro: split_here)
  next
    case False
    with Cons.prems(2) have "c \<in> set ns" by simp
    from Cons.IH [OF rest this] show ?thesis
      by (rule split_widen) (auto intro: Walk_frame [OF first])
  qed
qed

lemma walkChildren_split:
  assumes "walkChildren v m w = (Inr (), w')" and "c \<in> set (children m)"
  shows "\<exists>wa wb. Walk v c wa = (Inr (), wb) \<and> adds (\<lambda>d. True) w wa \<and> adds (\<lambda>d. True) wb w'"
proof (cases m)
  case (SendStmt ch arrow val)
  with assms(1) obtain u w1 where a: "Walk v ch w = (Inr u, w1)"
    and b: "Walk v val w1 = (Inr (), w')"
    by (auto elim: andThen_Inr_elim)
  from assms(2) SendStmt have "c = ch \<or> c = val" by auto
  then show ?thesis
  proof
    assume "c = ch"
    with a Walk_frame [OF b] show ?thesis by (auto intro: split_here)
  next
    assume "c = val"
    with b Walk_frame [OF a] show ?thesis
      by (intro exI [of _ w1] exI [of _ w']) simp
  qed
next
  case (GoStmt go fn args)
  with assms show ?thesis
    by (intro exI [of _ w] exI [of _ w']) simp
next
  case (CallExpr fn args)
  with assms(1) obtain u w1 where a: "Walk v fn w = (Inr u, w1)"
    and b: "walkList v args w1 = (Inr (), w')"
    by (auto elim: andThen_Inr_elim)
  from assms(2) CallExpr have "c = fn \<or> c \<in> set args" by auto
  then show ?thesis
  proof
    assume "c = fn"
    with a walkList_frame [OF b] show ?thesis by (auto intro: split_here)
  next
    assume "c \<in> set args"
    from walkList_split [OF b this] show ?thesis
      by (rule split_widen) (auto intro: Walk_frame [OF a])
  qed
next
  case (GenDecl tokPos tok specs)
  with assms walkList_split [of v specs w w' c] show ?thesis by simp
next
  case (ValueSpec names tys vals)
  with assms(1) obtain u1 w1 u2 w2 where a: "walkList v names w = (Inr u1, w1)"
    and b: "walkList v tys w1 = (Inr u2, w2)" and d: "walkList v vals w2 = (Inr (), w')"
    by (auto elim!: andThen_Inr_elim)
  from assms(2) ValueSpec consider "c \<in> set names" | "c \<in> set tys" | "c \<in> set vals"
    by auto
  then show ?thesis
  proof cases
    case 1
    from a have "walkList v names w = (Inr (), w1)" by simp
    from walkList_split [OF this 1] show ?thesis
      by (rule split_widen) (auto intro: adds_trans walkList_frame [OF b] walkList_frame [OF d])
  next
    case 2
    from b have "walkList v tys w1 = (Inr (), w2)" by simp
    from walkList_split [OF this 2] show ?thesis
      by (rule split_widen) (auto intro: walkList_frame [OF a] walkList_frame [OF d])
  next
    case 3
    from walkList_split [OF d 3] show ?thesis
      by (rule split_widen) (auto intro: adds_trans walkList_frame [OF a] walkList_frame [OF b])
  qed
next
  case (FuncDecl cs)
  with assms walkList_split [of v cs w w' c] show ?thesis by simp
next
  case (Ident namePos name)
  with assms show ?thesis by simp
next
  case (Other kind p cs)
  with assms walkList_split [of v cs w w' c] show ?thesis by simp
qed

text \<open>
  By induction along \<open>withinScope\<close>: a walk that returns, started with a visitor of file
  scope, reports every \<^verbatim>\<open>var\<close> declaration that lies within the scope of its root.
\<close>

lemma Walk_reports_var:
  assumes "withinScope (GenDecl tp VAR specs) m"
    and "v < length (heap w)" and "heap w ! v = vis" and "\<not> isInsideFunction vis"
    and "\<forall>spec \<in> set specs. Fprint (fset vis) spec = Inr (src spec)"
    and "Walk v m w = (Inr (), w')"
  shows "\<exists>pre post. stdout w' = stdout w @ pre @
           map (\<lambda>spec. report (fset vis) spec ''global var declared'' (OfText (src spec))) specs
           @ post"
  using assms
proof (induction "GenDecl tp VAR specs" m arbitrary: w w' rule: withinScope.induct)
  case (1 m)
  let ?d = "GenDecl tp VAR specs"
  let ?ds = "map (\<lambda>spec. report (fset vis) spec ''global var declared''
                           (OfText (src spec))) specs"
  from "1.prems"(6) obtain v1 w1 where visit: "Visit v (Some m) w = (Inr v1, w1)"
    and ch: "walkChildren v1 m w1 = (Inr (), w')"
    by (rule Walk_Inr_elim)
  from "1.prems"(1) consider (here) "m = ?d"
    | (below) c where "\<not> isFuncDecl m" "c \<in> set (children m)" "withinScope ?d c"
    by (subst (asm) withinScope.simps) auto
  then show ?case
  proof cases
    case here
    with "1.prems"(2-5) visit have "w1 = emit w ?ds"
      using visit_var_file_scope [of v w specs src tp] by simp
    with adds_stdout [OF walkChildren_frame [OF ch]] obtain post
      where "stdout w' = stdout w @ [] @ ?ds @ post" by auto
    then show ?thesis by blast
  next
    case below
    from below(1) have nf: "\<forall>cs. Some m \<noteq> Some (FuncDecl cs)"
      by (simp add: isFuncDecl_iff)
    from Visit_same_scope [OF nf visit] have same: "v1 = v" "heap w1 = heap w" by auto
    from Visit_adds [of False v w "Some m"] visit have grow1: "adds (\<lambda>d. True) w w1"
      by (auto intro: adds_mono)
    from walkChildren_split [OF ch below(2)] obtain wa wb
      where walk: "Walk v1 c wa = (Inr (), wb)"
        and ga: "adds (\<lambda>d. True) w1 wa" and gb: "adds (\<lambda>d. True) wb w'"
      by blast
    from grow1 ga have g: "adds (\<lambda>d. True) w wa" by (rule adds_trans)
    with "1.prems"(2,3) have cell: "v < length (heap wa)" "heap wa ! v = vis"
      using adds_heap_nth [OF g] adds_heap_length [OF g] by auto
    from walk same have "Walk v c wa = (Inr (), wb)" by simp
    from "1.hyps" [OF below(2,3) cell "1.prems"(4,5) this]
    obtain pre post where "stdout wb = stdout wa @ pre @ ?ds @ post"
      by blast
    moreover from adds_stdout [OF g] obtain xs where "stdout wa = stdout w @ xs" by blast
    moreover from adds_stdout [OF gb] obtain ys where "stdout w' = stdout wb @ ys" by blast
    ultimately have "stdout w' = stdout w @ (xs @ pre) @ ?ds @ (post @ ys)" by simp
    then show ?thesis by blast
  qed
qed

text \<open>
  Claim C10 (function literals). Only at a function declaration does \<open>Visit\<close> return
  another visitor than the one it is called on: at every other node it returns that
  visitor, and no visitor is allocated. A function literal is no function declaration.
  So when a function literal lies outside every function declaration (within the scope
  of the node \<open>m\<close> that a visitor of file scope walks; \<open>m\<close> may be the file, or the
  literal itself), every \<^verbatim>\<open>var\<close> declaration that lies within the literal, at any
  depth and at any position of its body, with no function declaration in between, gives
  its diagnostics \<open>global var declared\<close>, one per spec, in the output of a walk of \<open>m\<close>
  that returns.
\<close>

theorem only_funcdecl_derives_scope:
  "((\<forall>cs. n \<noteq> Some (FuncDecl cs)) \<and> Visit v n w = (Inr v', w') \<longrightarrow>
      v' = v \<and> heap w' = heap w)
   \<and> Visit v (Some (Other ''FuncLit'' p cs)) w = (Inr v, w)
   \<and> (v < length (heap w) \<and> \<not> isInsideFunction (heap w ! v) \<and>
       (\<forall>spec \<in> set specs. Fprint (fset (heap w ! v)) spec = Inr (src spec)) \<and>
       withinScope (Other ''FuncLit'' p cs) m \<and>
       withinScope (GenDecl tp VAR specs) (Other ''FuncLit'' p cs) \<and>
       Walk v m w = (Inr (), w2) \<longrightarrow>
       (\<exists>pre post.
          stdout w2 = stdout w @ pre @
            map (\<lambda>spec. report (fset (heap w ! v)) spec ''global var declared''
                          (OfText (src spec))) specs @ post))"
proof (intro conjI impI)
  assume "(\<forall>cs. n \<noteq> Some (FuncDecl cs)) \<and> Visit v n w = (Inr v', w')"
  then show "v' = v" and "heap w' = heap w"
    using Visit_same_scope [of n v w v' w'] by auto
next
  show "Visit v (Some (Other ''FuncLit'' p cs)) w = (Inr v, w)"
    by simp
next
  assume h: "v < length (heap w) \<and> \<not> isInsideFunction (heap w ! v) \<and>
       (\<forall>spec \<in> set specs. Fprint (fset (heap w ! v)) spec = Inr (src spec)) \<and>
       withinScope (Other ''FuncLit'' p cs) m \<and>
       withinScope (GenDecl tp VAR specs) (Other ''FuncLit'' p cs) \<and>
       Walk v m w = (Inr (), w2)"
  then have "withinScope (GenDecl tp VAR specs) m"
    using withinScope_trans by blast
  with h show "\<exists>pre post.
          stdout w2 = stdout w @ pre @
            map (\<lambda>spec. report (fset (heap w ! v)) spec ''global var declared''
                          (OfText (src spec))) specs @ post"
    using Walk_reports_var [of tp specs m v w "heap w ! v" src w2] by simp
qed

text \<open>
  In the example, \<^verbatim>\<open>var c int\<close> is the second statement of the literal, which lies in the
  declaration of \<^verbatim>\<open>h\<close> at file scope.
\<close>

theorem only_funcdecl_derives_scope_witness:
  "Visit 0 (Some exSend) exWorld =
     (Inr 0, emit exWorld [report exFileSet exSend ''sending pointer type over a channel''
                             (OfType (Slice (Basic Int0)))])
   \<and> Visit 0 (Some exFuncLit) exWorld = (Inr 0, exWorld)
   \<and> withinScope exFuncLit exFile
   \<and> withinScope (GenDecl 76 VAR [exSpecC]) exFuncLit
   \<and> Walk 0 exFuncLit exWorld =
       (Inr (), emit exWorld [report exFileSet exSpecC ''global var declared'' (OfText ''c int'')])
   \<and> fst (Walk 0 exFile exWorld) = Inr ()
   \<and> (\<exists>pre post. stdout (snd (Walk 0 exFile exWorld)) =
         pre @ [report exFileSet exSpecC ''global var declared'' (OfText ''c int'')] @ post)"
proof -
  have lit: "exFuncLit = Other ''FuncLit'' 54
       [Other ''FuncType'' 54 [Other ''FieldList'' 58 []],
        Other ''BlockStmt'' 61
          [Other ''ExprStmt'' 64 [CallExpr (Ident 64 ''println'') [Ident 72 ''a'']],
           Other ''DeclStmt'' 76 [GenDecl 76 VAR [exSpecC]],
           Other ''AssignStmt'' 87 [Ident 87 ''_'', Ident 91 ''c'']]]"
    by (simp add: exFuncLit_def)
  have in_file: "withinScope exFuncLit exFile"
    by (simp add: exFile_def exSpecH_def)
  have in_lit: "withinScope (GenDecl 76 VAR [exSpecC]) exFuncLit"
    by (simp add: exFuncLit_def)
  have send: "Visit 0 (Some exSend) exWorld =
     (Inr 0, emit exWorld [report exFileSet exSend ''sending pointer type over a channel''
                             (OfType (Slice (Basic Int0)))])"
    by (simp add: ex_defs printError_typed)
  have walk_lit: "Walk 0 exFuncLit exWorld =
       (Inr (), emit exWorld [report exFileSet exSpecC ''global var declared'' (OfText ''c int'')])"
    by (simp add: ex_defs printError_text report_def emit_def Walk.simps(1))
  have returns: "fst (Walk 0 exFile exWorld) = Inr ()"
    by (simp add: ex_defs printError_text printError_typed report_def emit_def Walk.simps(1))
  then have walk_file: "Walk 0 exFile exWorld = (Inr (), snd (Walk 0 exFile exWorld))"
    by (simp add: prod_eq_iff)
  have valid: "(0::nat) < length (heap exWorld)" and flag: "\<not> isInsideFunction (heap exWorld ! 0)"
    and fs: "fset (heap exWorld ! 0) = exFileSet" and out: "stdout exWorld = []"
    by (simp_all add: exWorld_def exVisitor_def)
  have printed: "\<forall>spec \<in> set [exSpecC].
      Fprint (fset (heap exWorld ! 0)) spec = Inr ((\<lambda>n. ''c int'') spec)"
    by (simp add: ex_defs)
  from only_funcdecl_derives_scope [of "Some exSend" 0 exWorld 0
      "snd (Visit 0 (Some exSend) exWorld)" 54
      "[Other ''FuncType'' 54 [Other ''FieldList'' 58 []],
        Other ''BlockStmt'' 61
          [Other ''ExprStmt'' 64 [CallExpr (Ident 64 ''println'') [Ident 72 ''a'']],
           Other ''DeclStmt'' 76 [GenDecl 76 VAR [exSpecC]],
           Other ''AssignStmt'' 87 [Ident 87 ''_'', Ident 91 ''c'']]]"
      "[exSpecC]" "\<lambda>n. ''c int''" exFile 76 "snd (Walk 0 exFile exWorld)"]
    in_file in_lit walk_file valid flag fs out printed send walk_lit returns
  show ?thesis
    by (simp add: lit [symmetric] del: withinScope_Other withinScope_GenDecl)
qed

section \<open>The example file, from end to end\<close>

text \<open>
  What the analysis of the example file writes: the two declarations at file scope, the
  declaration inside the function literal, and from the body of \<^verbatim>\<open>g\<close> the send and the
  go statement with both of its arguments, and nothing for \<^verbatim>\<open>var d int\<close>.
\<close>

lemma example_file_output:
  "map (Printf exTypeString)
     (stdout (snd (walkFile exFileSet \<lparr>TypeOf = exTypes\<rparr> exFile \<lparr>stdout = [], heap = []\<rparr>))) =
   [''main.go:5:5:warning: global var declared (a, b int)'' @ [CHR 0x0A],
    ''main.go:7:5:warning: global var declared (h = func() {'' @ [CHR 0x0A, CHR 0x09] @
      ''println(a)'' @ [CHR 0x0A, CHR 0x09] @ ''var c int'' @ [CHR 0x0A, CHR 0x09] @
      ''_ = c'' @ [CHR 0x0A] @ ''})'' @ [CHR 0x0A],
    ''main.go:9:6:warning: global var declared (c int)'' @ [CHR 0x0A],
    ''main.go:18:2:warning: sending pointer type over a channel ([]int)'' @ [CHR 0x0A],
    ''main.go:19:2:warning: calling goroutine on a pointer type '' @
      ''(func(p *int, x unsafe.Pointer))'' @ [CHR 0x0A],
    ''main.go:19:7:warning: calling goroutine with a pointer type (*int)'' @ [CHR 0x0A],
    ''main.go:19:10:warning: calling goroutine with a pointer type (unsafe.Pointer)'' @
      [CHR 0x0A]]"
  by (simp add: walkFile_def ex_defs printError_text printError_typed report_def emit_def
        Walk.simps(1) Printf_def showAnnotation_def)

end
